theory Spec2Isabelle
  imports Complex_Main "HOL-Library.Multiset" "HOL-Library.Word"
begin

section \<open>Sensor log analyser (app.py): a shallow embedding\<close>

text \<open>
  The program is one script. It reads an uploaded CSV into a pandas DataFrame, stops on
  three conditions, normalises and filters an optional \<open>timestamp\<close> column, and computes
  z-scores, an outlier mask, a per-column outlier ratio and a correlation matrix.

  The script's own logic (the order of the stages, the guards, the masks, the arithmetic
  it writes out) is modelled as it stands. The pandas calls it makes are modelled by
  what they compute on the values: the reductions \<open>mean\<close>, \<open>std\<close>, \<open>corr\<close> and the
  element-wise operators are written out below; the parsers and the CSV writer
  (\<open>read_csv\<close>, \<open>to_datetime\<close>, \<open>to_csv\<close>) are parameters, gathered in the record
  \<open>library\<close>.
\<close>

subsection \<open>Floating-point values\<close>

text \<open>
  A float is a real number, one of the two infinities, or NaN. Arithmetic follows
  IEEE 754 for the special values (\<open>0/0 = NaN\<close>, \<open>x/0 = \<plusminus>inf\<close>, \<open>inf - inf = NaN\<close>, every
  comparison with NaN is false); on finite values it is exact: rounding and overflow
  are not modelled. A missing cell of a numeric column is NaN, as in pandas. Zero has no
  sign: every divisor below is a count, a length or a square root.
\<close>

datatype float = Fin real | PInf | NInf | NaN

fun fneg :: "float \<Rightarrow> float" where
  "fneg (Fin a) = Fin (- a)"
| "fneg PInf = NInf"
| "fneg NInf = PInf"
| "fneg NaN = NaN"

fun fadd :: "float \<Rightarrow> float \<Rightarrow> float" where
  "fadd (Fin a) (Fin b) = Fin (a + b)"
| "fadd NaN y = NaN"
| "fadd x NaN = NaN"
| "fadd PInf NInf = NaN"
| "fadd NInf PInf = NaN"
| "fadd PInf y = PInf"
| "fadd x PInf = PInf"
| "fadd NInf y = NInf"
| "fadd x NInf = NInf"

definition fsub :: "float \<Rightarrow> float \<Rightarrow> float" where
  "fsub x y = fadd x (fneg y)"

definition inf_of_sign :: "bool \<Rightarrow> float" where
  "inf_of_sign positive = (if positive then PInf else NInf)"

fun fmul :: "float \<Rightarrow> float \<Rightarrow> float" where
  "fmul (Fin a) (Fin b) = Fin (a * b)"
| "fmul NaN y = NaN"
| "fmul x NaN = NaN"
| "fmul (Fin a) PInf = (if a = 0 then NaN else inf_of_sign (0 < a))"
| "fmul (Fin a) NInf = (if a = 0 then NaN else inf_of_sign (a < 0))"
| "fmul PInf (Fin b) = (if b = 0 then NaN else inf_of_sign (0 < b))"
| "fmul NInf (Fin b) = (if b = 0 then NaN else inf_of_sign (b < 0))"
| "fmul PInf PInf = PInf"
| "fmul PInf NInf = NInf"
| "fmul NInf PInf = NInf"
| "fmul NInf NInf = PInf"

fun fdiv :: "float \<Rightarrow> float \<Rightarrow> float" where
  "fdiv (Fin a) (Fin b) =
     (if b \<noteq> 0 then Fin (a / b) else if a = 0 then NaN else inf_of_sign (0 < a))"
| "fdiv NaN y = NaN"
| "fdiv x NaN = NaN"
| "fdiv (Fin a) PInf = Fin 0"
| "fdiv (Fin a) NInf = Fin 0"
| "fdiv PInf (Fin b) = inf_of_sign (0 \<le> b)"
| "fdiv NInf (Fin b) = inf_of_sign (b < 0)"
| "fdiv PInf PInf = NaN"
| "fdiv PInf NInf = NaN"
| "fdiv NInf PInf = NaN"
| "fdiv NInf NInf = NaN"

fun fabs :: "float \<Rightarrow> float" where
  "fabs (Fin a) = Fin \<bar>a\<bar>"
| "fabs PInf = PInf"
| "fabs NInf = PInf"
| "fabs NaN = NaN"

fun fsqrt :: "float \<Rightarrow> float" where
  "fsqrt (Fin a) = (if a < 0 then NaN else Fin (sqrt a))"
| "fsqrt PInf = PInf"
| "fsqrt NInf = NaN"
| "fsqrt NaN = NaN"

text \<open>The comparison \<open>x > y\<close>: false as soon as one side is NaN.\<close>

fun fgt :: "float \<Rightarrow> float \<Rightarrow> bool" where
  "fgt (Fin a) (Fin b) = (b < a)"
| "fgt NaN y = False"
| "fgt x NaN = False"
| "fgt x PInf = False"
| "fgt NInf y = False"
| "fgt PInf y = True"
| "fgt (Fin a) NInf = True"

definition notna :: "float \<Rightarrow> bool" where
  "notna x = (x \<noteq> NaN)"

definition fsum :: "float list \<Rightarrow> float" where
  "fsum xs = foldr fadd xs (Fin 0)"

subsection \<open>Column reductions: \<open>mean\<close> and \<open>std\<close>\<close>

text \<open>
  \<open>Series.mean()\<close> and \<open>Series.std()\<close> with their defaults (\<open>skipna=True\<close>, \<open>ddof=1\<close>):
  missing entries are left out; the mean of no value is NaN (\<open>0/0\<close>); the standard
  deviation of fewer than two values is NaN, otherwise the square root of the sum of the
  squared deviations from the mean, divided by the count less one.
\<close>

definition count :: "float list \<Rightarrow> nat" where
  "count xs = length (filter notna xs)"

definition mean :: "float list \<Rightarrow> float" where
  "mean xs = fdiv (fsum (filter notna xs)) (Fin (real (count xs)))"

definition std :: "float list \<Rightarrow> float" where
  "std xs =
     (if count xs \<le> 1 then NaN
      else let avg = mean xs;
               sqr = map (\<lambda>x. fmul (fsub avg x) (fsub avg x)) (filter notna xs)
           in fsqrt (fdiv (fsum sqr) (Fin (real (count xs - 1)))))"

subsection \<open>Outlier detection (app.py, lines 83, 84 and 103)\<close>

text \<open>
  \<open>df[numeric_cols]\<close> is a frame of float columns, each with its name. The operators
  of line 83 work column by column: every cell of a column is reduced by the column's
  mean and divided by the column's standard deviation.
\<close>

type_synonym frame = "(string \<times> float list) list"

definition z_column :: "float list \<Rightarrow> float list" where
  "z_column xs = map (\<lambda>x. fabs (fdiv (fsub x (mean xs)) (std xs))) xs"

text \<open>\<open>z_scores = np.abs((df[numeric_cols] - df[numeric_cols].mean()) / df[numeric_cols].std())\<close>\<close>

definition z_scores :: "frame \<Rightarrow> frame" where
  "z_scores X = map (\<lambda>(c, xs). (c, z_column xs)) X"

text \<open>\<open>z_scores > 3\<close>: a frame of booleans.\<close>

definition gt3 :: "frame \<Rightarrow> (string \<times> bool list) list" where
  "gt3 Z = map (\<lambda>(c, zs). (c, map (\<lambda>z. fgt z (Fin 3)) zs)) Z"

text \<open>
  \<open>outliers = (z_scores > 3).any(axis=1)\<close>: one boolean per row of the index, whose
  length \<open>n\<close> is \<open>len(df)\<close>.
\<close>

definition outliers :: "nat \<Rightarrow> frame \<Rightarrow> bool list" where
  "outliers n Z = map (\<lambda>r. list_ex (\<lambda>(c, bs). bs ! r) (gt3 Z)) [0..<n]"

text \<open>
  \<open>outlier_ratio = ((z_scores > 3).sum() / len(df)) * 100\<close>: the count of each column is
  an integer, the division is the float one.
\<close>

definition outlier_ratio :: "nat \<Rightarrow> frame \<Rightarrow> (string \<times> float) list" where
  "outlier_ratio n Z =
     map (\<lambda>(c, bs). (c, fmul (fdiv (Fin (real (length (filter id bs)))) (Fin (real n))) (Fin 100)))
       (gt3 Z)"

subsection \<open>The z-score as the specification words it\<close>

text \<open>
  The specification speaks of real numbers: the mean of a column's values, their sample
  standard deviation (denominator \<open>N - 1\<close>), and the quotient \<open>|x - mean| / std\<close>. These
  definitions follow its words, over the values that are present in the column. A
  z-score exists for a cell that holds a number, in a column with at least two numbers,
  none of them infinite (the mean of a column with an infinite value is no real number),
  and with a standard deviation other than zero.
\<close>

definition present :: "float list \<Rightarrow> real list" where
  "present xs = concat (map (\<lambda>x. case x of Fin a \<Rightarrow> [a] | _ \<Rightarrow> []) xs)"

definition sample_mean :: "real list \<Rightarrow> real" where
  "sample_mean vs = sum_list vs / real (length vs)"

definition sample_std :: "real list \<Rightarrow> real" where
  "sample_std vs = sqrt ((\<Sum>v\<leftarrow>vs. (v - sample_mean vs)\<^sup>2) / real (length vs - 1))"

text \<open>A column without infinite cells: every cell is a number or is missing.\<close>

definition no_inf :: "float list \<Rightarrow> bool" where
  "no_inf xs = (\<forall>x\<in>set xs. x \<noteq> PInf \<and> x \<noteq> NInf)"

definition z_exceeds :: "float list \<Rightarrow> nat \<Rightarrow> real \<Rightarrow> bool" where
  "z_exceeds xs r thr =
     (case xs ! r of
        Fin x \<Rightarrow> no_inf xs \<and> 2 \<le> length (present xs) \<and> sample_std (present xs) \<noteq> 0 \<and>
                 thr < \<bar>x - sample_mean (present xs)\<bar> / sample_std (present xs)
      | _ \<Rightarrow> False)"

subsection \<open>Sample data\<close>

text \<open>
  Sixteen readings: mean 1, sample standard deviation 4; the last one is 3.75 deviations
  away.
\<close>

definition temp16 :: "float list" where
  "temp16 = [Fin 0, Fin 0, Fin 0, Fin 0, Fin 0, Fin 0, Fin 0, Fin 0,
             Fin 0, Fin 0, Fin 0, Fin 0, Fin 0, Fin 0, Fin 0, Fin 16]"


subsection \<open>Tables\<close>

text \<open>
  A DataFrame is a list of named columns; a column has one dtype. \<open>NumCol\<close> is an integer
  or float column (what \<open>np.number\<close> selects), \<open>ObjCol\<close> any other column as read from the file
  (text, or missing), \<open>TimeCol\<close> a \<open>datetime64[ns]\<close> column: each instant as the
  nanoseconds of its clock reading since 1970-01-01 00:00, or \<open>NaT\<close>. \<open>read_csv\<close> gives
  every column the same length and its own name.
\<close>

datatype column = NumCol "float list" | ObjCol "string option list" | TimeCol "int option list"

type_synonym dataframe = "(string \<times> column) list"

fun col_len :: "column \<Rightarrow> nat" where
  "col_len (NumCol xs) = length xs"
| "col_len (ObjCol ss) = length ss"
| "col_len (TimeCol ts) = length ts"

text \<open>\<open>len(df)\<close>, the number of rows, and \<open>df.empty\<close>, true when an axis has length zero.\<close>

definition len :: "dataframe \<Rightarrow> nat" where
  "len df = (case df of [] \<Rightarrow> 0 | (c, col) # rest \<Rightarrow> col_len col)"

definition df_empty :: "dataframe \<Rightarrow> bool" where
  "df_empty df = (df = [] \<or> len df = 0)"

definition columns :: "dataframe \<Rightarrow> string list" where
  "columns df = map fst df"

text \<open>Selecting rows by position (\<open>iloc\<close>) and by a boolean mask (\<open>df.loc[mask]\<close>, \<open>df[mask]\<close>).\<close>

fun take_rows :: "nat list \<Rightarrow> column \<Rightarrow> column" where
  "take_rows idx (NumCol xs) = NumCol (map (nth xs) idx)"
| "take_rows idx (ObjCol ss) = ObjCol (map (nth ss) idx)"
| "take_rows idx (TimeCol ts) = TimeCol (map (nth ts) idx)"

definition iloc :: "nat list \<Rightarrow> dataframe \<Rightarrow> dataframe" where
  "iloc idx df = map (\<lambda>(c, col). (c, take_rows idx col)) df"

definition loc :: "bool list \<Rightarrow> dataframe \<Rightarrow> dataframe" where
  "loc flags df = iloc (filter (nth flags) [0..<len df]) df"

text \<open>\<open>numeric_cols = df.select_dtypes(include=np.number).columns\<close> (line 47).\<close>

fun is_number :: "column \<Rightarrow> bool" where
  "is_number (NumCol xs) = True"
| "is_number (ObjCol ss) = False"
| "is_number (TimeCol ts) = False"

definition select_dtypes_number :: "dataframe \<Rightarrow> string list" where
  "select_dtypes_number df = map fst (filter (\<lambda>(c, col). is_number col) df)"

text \<open>
  \<open>df[numeric_cols]\<close> as the frame of floats the arithmetic works on. A \<open>datetime64\<close>
  column takes part through its nanosecond count, \<open>NaT\<close> as NaN (pandas 2 carries such a
  column through \<open>mean\<close>, \<open>std\<close>, \<open>-\<close> and \<open>/\<close> this way). A text column has
  no numbers; none is ever selected, since \<open>numeric_cols\<close> names numeric columns of the
  loaded table and only \<open>timestamp\<close> is rewritten afterwards.
\<close>

fun floats :: "column \<Rightarrow> float list" where
  "floats (NumCol xs) = xs"
| "floats (TimeCol ts) = map (\<lambda>t. case t of None \<Rightarrow> NaN | Some ns \<Rightarrow> Fin (real_of_int ns)) ts"
| "floats (ObjCol ss) = map (\<lambda>s. NaN) ss"

definition select :: "string list \<Rightarrow> dataframe \<Rightarrow> frame" where
  "select cs df = map (\<lambda>(c, col). (c, floats col)) (filter (\<lambda>(c, col). c \<in> set cs) df)"

subsection \<open>The library\<close>

text \<open>
  The uploaded file is a byte stream with a read position. \<open>read_csv\<close> reads from the
  position on and moves it; it returns a table, or \<open>None\<close> when it raises. \<open>to_datetime\<close>
  (called with \<open>errors='coerce'\<close>) gives for a column the instant parsed at each position,
  or \<open>None\<close> (\<open>NaT\<close>) where the value does not parse; it looks at the whole column, since
  pandas infers the format from it. \<open>to_csv\<close> (with \<open>index=False\<close>, then \<open>encode('utf-8')\<close>)
  writes a table as bytes.
\<close>

type_synonym byte = "8 word"

record upload =
  data :: "byte list"
  pos :: nat

datatype encoding = Utf8 | Cp949 | Latin1

record library =
  read_csv :: "encoding \<Rightarrow> upload \<Rightarrow> dataframe option \<times> upload"
  to_datetime :: "column \<Rightarrow> nat \<Rightarrow> int option"
  to_csv :: "dataframe \<Rightarrow> byte list"

subsection \<open>Loading (app.py, lines 27 to 42)\<close>

definition encodings_to_try :: "encoding list" where
  "encodings_to_try = [Utf8, Cp949, Latin1]"

text \<open>
  The loop of lines 29 to 34: every attempt is made on the same file object, so it
  starts where the one before it left the stream.
\<close>

fun try_encodings :: "library \<Rightarrow> encoding list \<Rightarrow> upload \<Rightarrow> dataframe option \<times> upload" where
  "try_encodings lib [] u = (None, u)"
| "try_encodings lib (enc # encs) u =
     (case read_csv lib enc u of
        (Some df, u') \<Rightarrow> (Some df, u')
      | (None, u') \<Rightarrow> try_encodings lib encs u')"

text \<open>
  The ways a run ends early. The first three are the script's \<open>st.stop()\<close> branches
  (lines 36 to 51), named as the specification names them. \<open>NaTDefault\<close> is the run in
  which no timestamp parses: \<open>min()\<close> of the empty column is \<open>NaT\<close>, which the script hands
  to the date widgets as their default; what the widget does with it is not in this
  source, and the run is not followed further.
\<close>

datatype error = DecodeError | EmptyInputError | NoAnalyzableDataError | NaTDefault

definition load :: "library \<Rightarrow> upload \<Rightarrow> error + dataframe" where
  "load lib u =
     (case fst (try_encodings lib encodings_to_try u) of
        None \<Rightarrow> Inl DecodeError
      | Some df \<Rightarrow> if df_empty df then Inl EmptyInputError else Inr df)"

subsection \<open>Time normalisation and the date filter (lines 53 to 65)\<close>

definition set_column :: "string \<Rightarrow> column \<Rightarrow> dataframe \<Rightarrow> dataframe" where
  "set_column name col df = map (\<lambda>(c, old). if c = name then (c, col) else (c, old)) df"

definition timestamps :: "dataframe \<Rightarrow> int option list" where
  "timestamps df = (case map_of df ''timestamp'' of Some (TimeCol ts) \<Rightarrow> ts | _ \<Rightarrow> [])"

text \<open>
  \<open>sort_values\<close>: the positions of the instants in ascending order, those of \<open>NaT\<close> last.
  Rows with equal instants keep their order here; pandas' default sort does not promise
  that, and no property below depends on it.
\<close>

definition argsort :: "int option list \<Rightarrow> nat list" where
  "argsort ts =
     sort_key (\<lambda>i. the (ts ! i)) (filter (\<lambda>i. ts ! i \<noteq> None) [0..<length ts]) @
     filter (\<lambda>i. ts ! i = None) [0..<length ts]"

text \<open>
  Lines 53 to 58. The result is the table and \<open>timestamp_available\<close>.
\<close>

definition normalize :: "library \<Rightarrow> dataframe \<Rightarrow> dataframe \<times> bool" where
  "normalize lib df =
     (case map_of df ''timestamp'' of
        None \<Rightarrow> (df, False)
      | Some col \<Rightarrow>
          let parsed = map (to_datetime lib col) [0..<col_len col];
              df1 = set_column ''timestamp'' (TimeCol parsed) df;
              df2 = loc (map (\<lambda>t. t \<noteq> None) parsed) df1;
              df3 = iloc (argsort (timestamps df2)) df2
          in (df3, True))"

text \<open>
  The calendar date of an instant, as days since the epoch (\<open>.dt.date\<close>), and the
  minimum and maximum of a \<open>datetime64\<close> column (\<open>NaT\<close>, here \<open>None\<close>, when it has no value).
\<close>

definition ns_per_day :: int where
  "ns_per_day = 86400000000000"

definition date_of :: "int \<Rightarrow> int" where
  "date_of t = t div ns_per_day"

definition ts_min :: "int option list \<Rightarrow> int option" where
  "ts_min ts = (case List.map_filter id ts of [] \<Rightarrow> None | t # rest \<Rightarrow> Some (fold min rest t))"

definition ts_max :: "int option list \<Rightarrow> int option" where
  "ts_max ts = (case List.map_filter id ts of [] \<Rightarrow> None | t # rest \<Rightarrow> Some (fold max rest t))"

text \<open>
  \<open>st.date_input(label, value=default)\<close> returns the date the user picked, the default
  when the widget was left alone.
\<close>

definition date_input :: "int option \<Rightarrow> int \<Rightarrow> int" where
  "date_input picked dflt = (case picked of None \<Rightarrow> dflt | Some d \<Rightarrow> d)"

text \<open>Lines 64 and 65: the mask on the dates, and the rows it keeps.\<close>

definition date_mask :: "int \<Rightarrow> int \<Rightarrow> int option list \<Rightarrow> bool list" where
  "date_mask start_date end_date ts =
     map (\<lambda>t. case t of None \<Rightarrow> False
               | Some ns \<Rightarrow> start_date \<le> date_of ns \<and> date_of ns \<le> end_date) ts"

definition date_filter :: "int \<Rightarrow> int \<Rightarrow> dataframe \<Rightarrow> dataframe" where
  "date_filter start_date end_date df = loc (date_mask start_date end_date (timestamps df)) df"

subsection \<open>Correlation (line 113)\<close>

text \<open>
  \<open>DataFrame.corr()\<close> with its defaults: Pearson's coefficient of every pair of columns,
  over the rows in which both cells are finite (pandas masks with \<open>isfinite\<close>), with at
  least one such row; NaN when the divisor \<open>sqrt(ssx * ssy)\<close> is zero.
\<close>

definition pairwise_complete :: "float list \<Rightarrow> float list \<Rightarrow> (real \<times> real) list" where
  "pairwise_complete xs ys =
     concat (map (\<lambda>(x, y). case (x, y) of (Fin a, Fin b) \<Rightarrow> [(a, b)] | _ \<Rightarrow> []) (zip xs ys))"

definition ssqdm :: "real list \<Rightarrow> real" where
  "ssqdm vs = (\<Sum>v\<leftarrow>vs. (v - sum_list vs / real (length vs))\<^sup>2)"

definition covxy :: "(real \<times> real) list \<Rightarrow> real" where
  "covxy ps =
     (\<Sum>(a, b)\<leftarrow>ps. (a - sum_list (map fst ps) / real (length ps)) *
                    (b - sum_list (map snd ps) / real (length ps)))"

definition corr_pair :: "float list \<Rightarrow> float list \<Rightarrow> float" where
  "corr_pair xs ys =
     (let ps = pairwise_complete xs ys;
          divisor = sqrt (ssqdm (map fst ps) * ssqdm (map snd ps))
      in if length ps < 1 then NaN
         else if divisor \<noteq> 0 then Fin (covxy ps / divisor) else NaN)"

definition corr :: "frame \<Rightarrow> (string \<times> (string \<times> float) list) list" where
  "corr X = map (\<lambda>(c, xs). (c, map (\<lambda>(d, ys). (d, corr_pair xs ys)) X)) X"

subsection \<open>The whole run\<close>

text \<open>
  What a run that reaches the analysis hands to the page: the table after normalisation
  and filtering, the numeric column names of line 47, and the values of lines 83 to 113.
  The summary of line 68, the plots and the widgets that only display are left out: no
  later value depends on them.
\<close>

record analysis =
  res_table :: dataframe
  res_numeric_cols :: "string list"
  res_timestamp_available :: bool
  res_z_scores :: frame
  res_outliers :: "bool list"
  res_csv_outliers :: "byte list"
  res_outlier_ratio :: "(string \<times> float) list"
  res_corr :: "(string \<times> (string \<times> float) list) list"

text \<open>Line 94: \<open>csv_outliers = df[outliers].to_csv(index=False).encode('utf-8')\<close>.\<close>

definition csv_outliers :: "library \<Rightarrow> dataframe \<Rightarrow> bool list \<Rightarrow> byte list" where
  "csv_outliers lib df flags = to_csv lib (loc flags df)"

definition analyse :: "library \<Rightarrow> string list \<Rightarrow> dataframe \<Rightarrow> bool \<Rightarrow> analysis" where
  "analyse lib numeric_cols df timestamp_available =
     (let X = select numeric_cols df;
          Z = z_scores X;
          out = outliers (len df) Z
      in \<lparr>res_table = df, res_numeric_cols = numeric_cols,
          res_timestamp_available = timestamp_available,
          res_z_scores = Z, res_outliers = out,
          res_csv_outliers = csv_outliers lib df out,
          res_outlier_ratio = outlier_ratio (len df) Z,
          res_corr = corr X\<rparr>)"

definition pipeline :: "library \<Rightarrow> int option \<Rightarrow> int option \<Rightarrow> upload \<Rightarrow> error + analysis" where
  "pipeline lib picked_start picked_end u =
     (case load lib u of
        Inl e \<Rightarrow> Inl e
      | Inr df \<Rightarrow>
          let numeric_cols = select_dtypes_number df in
          if length numeric_cols = 0 then Inl NoAnalyzableDataError
          else case normalize lib df of
                 (df1, False) \<Rightarrow> Inr (analyse lib numeric_cols df1 False)
               | (df1, True) \<Rightarrow>
                   (case (ts_min (timestamps df1), ts_max (timestamps df1)) of
                      (Some lo, Some hi) \<Rightarrow>
                        let start_date = date_input picked_start (date_of lo);
                            end_date = date_input picked_end (date_of hi)
                        in Inr (analyse lib numeric_cols (date_filter start_date end_date df1) True)
                    | _ \<Rightarrow> Inl NaTDefault))"

subsection \<open>Rows and entries, for stating properties\<close>

datatype cell = Num float | Obj "string option" | Time "int option"

fun cell_at :: "column \<Rightarrow> nat \<Rightarrow> cell" where
  "cell_at (NumCol xs) i = Num (xs ! i)"
| "cell_at (ObjCol ss) i = Obj (ss ! i)"
| "cell_at (TimeCol ts) i = Time (ts ! i)"

definition row :: "dataframe \<Rightarrow> nat \<Rightarrow> cell list" where
  "row df i = map (\<lambda>(c, col). cell_at col i) df"

definition rows :: "dataframe \<Rightarrow> cell list list" where
  "rows df = map (row df) [0..<len df]"

text \<open>A well-formed table: the column names differ and the columns have one length.\<close>

definition wf :: "dataframe \<Rightarrow> bool" where
  "wf df = (distinct (map fst df) \<and> (\<forall>(c, col)\<in>set df. col_len col = len df))"

text \<open>
  The table with its \<open>timestamp\<close> column parsed, before any row is dropped, and the
  positions of the rows whose timestamp parses (all rows, when there is no such column).
\<close>

definition with_parsed_timestamps :: "library \<Rightarrow> dataframe \<Rightarrow> dataframe" where
  "with_parsed_timestamps lib df =
     (case map_of df ''timestamp'' of
        None \<Rightarrow> df
      | Some col \<Rightarrow>
          set_column ''timestamp'' (TimeCol (map (to_datetime lib col) [0..<col_len col])) df)"

definition parsed_rows :: "library \<Rightarrow> dataframe \<Rightarrow> nat list" where
  "parsed_rows lib df =
     (case map_of df ''timestamp'' of
        None \<Rightarrow> [0..<len df]
      | Some col \<Rightarrow> filter (\<lambda>i. to_datetime lib col i \<noteq> None) [0..<len df])"


subsection \<open>Sample tables, uploads and a stand-in library\<close>

text \<open>
  The stand-in reader refuses a stream that has nothing left and, under utf-8, one that
  holds a byte above \<open>0x7F\<close>; otherwise it returns the table it is given. Like pandas
  it leaves the stream at its end. The stand-in \<open>to_datetime\<close> reads a number as
  nanoseconds since the epoch, as pandas does, and refuses text and missing cells.
  \<open>cp949_upload\<close> is a header and one row in cp949, its first byte \<open>0xBF\<close> no start of a
  utf-8 sequence.
\<close>

definition demo_table :: dataframe where
  "demo_table = [(''temp'', NumCol [Fin 1])]"

definition demo_library :: "dataframe \<Rightarrow> library" where
  "demo_library tbl =
     \<lparr>read_csv = (\<lambda>enc u.
         (if length (data u) \<le> pos u then None
          else if enc = Utf8 \<and> list_ex (\<lambda>b. 128 \<le> unat b) (drop (pos u) (data u)) then None
          else Some tbl,
          u\<lparr>pos := length (data u)\<rparr>)),
      to_datetime = (\<lambda>col i. case col of
           NumCol xs \<Rightarrow> (case xs ! i of Fin r \<Rightarrow> Some \<lfloor>r\<rfloor> | _ \<Rightarrow> None)
         | TimeCol ts \<Rightarrow> ts ! i
         | ObjCol ss \<Rightarrow> None),
      to_csv = (\<lambda>df. [0x74, 0x0A])\<rparr>"

definition cp949_upload :: upload where
  "cp949_upload = \<lparr>data = [0xBF, 0xC2, 0xB5, 0xB5, 0x0A, 0x31, 0x0A], pos = 0\<rparr>"

definition ascii_upload :: upload where
  "ascii_upload = \<lparr>data = [0x74, 0x0A, 0x31, 0x0A], pos = 0\<rparr>"

text \<open>Three readings, none of them an outlier.\<close>

definition steady_table :: dataframe where
  "steady_table = [(''temp'', NumCol [Fin 1, Fin 2, Fin 3])]"

text \<open>
  A table whose \<open>timestamp\<close> column holds numbers, out of order and with one missing cell,
  and the same table with the column named \<open>Timestamp\<close>.
\<close>

definition stamped_table :: dataframe where
  "stamped_table = [(''timestamp'', NumCol [Fin 300, NaN, Fin 100]),
                    (''temp'', NumCol [Fin 1, Fin 2, Fin 3])]"

definition capital_table :: dataframe where
  "capital_table = [(''Timestamp'', NumCol [Fin 300, NaN, Fin 100]),
                    (''temp'', NumCol [Fin 1, Fin 2, Fin 3])]"

text \<open>
  Four rows on three days: midnight of day 0, the first and the last instant of day 1,
  midnight of day 2.
\<close>

definition dated_table :: dataframe where
  "dated_table =
     [(''timestamp'', TimeCol [Some 0, Some 86400000000000, Some 172799999999999,
                               Some 172800000000000]),
      (''temp'', NumCol [Fin 1, Fin 2, Fin 3, Fin 4])]"



section \<open>Properties\<close>

subsection \<open>The reductions and the z-scores of a column\<close>

lemma fsum_Fin: "fsum (map Fin vs) = Fin (sum_list vs)"
  by (induction vs) (simp_all add: fsum_def)

lemma filter_notna_no_inf: "no_inf xs \<Longrightarrow> filter notna xs = map Fin (present xs)"
proof (induction xs)
  case Nil
  then show ?case by (simp add: present_def)
next
  case (Cons x xs)
  then show ?case by (cases x) (simp_all add: present_def no_inf_def notna_def)
qed

lemma count_no_inf: "no_inf xs \<Longrightarrow> count xs = length (present xs)"
  by (simp add: count_def filter_notna_no_inf)

lemma mean_no_inf:
  "no_inf xs \<Longrightarrow> present xs \<noteq> [] \<Longrightarrow> mean xs = Fin (sample_mean (present xs))"
  by (simp add: mean_def count_no_inf filter_notna_no_inf fsum_Fin sample_mean_def)

lemma sample_std_nonneg: "0 \<le> sample_std vs"
  unfolding sample_std_def
  by (intro real_sqrt_ge_zero divide_nonneg_nonneg sum_list_nonneg) auto

lemma std_no_inf:
  assumes "no_inf xs" "2 \<le> length (present xs)"
  shows "std xs = Fin (sample_std (present xs))"
proof -
  let ?vs = "present xs"
  let ?m = "sample_mean ?vs"
  have ne: "?vs \<noteq> []" using assms(2) by auto
  have m: "mean xs = Fin ?m" by (rule mean_no_inf [OF assms(1) ne])
  have sq: "map (\<lambda>x. fmul (fsub (Fin ?m) x) (fsub (Fin ?m) x)) (map Fin ?vs)
            = map Fin (map (\<lambda>v. (v - ?m)\<^sup>2) ?vs)"
    by (simp add: fsub_def power2_eq_square algebra_simps)
  have nonneg: "0 \<le> (\<Sum>v\<leftarrow>?vs. (v - ?m)\<^sup>2) / real (length ?vs - 1)"
    by (intro divide_nonneg_nonneg sum_list_nonneg) auto
  show ?thesis
    using assms(2) nonneg
    by (simp add: std_def count_no_inf [OF assms(1)] m filter_notna_no_inf [OF assms(1)] sq
        fsum_Fin sample_std_def Let_def del: map_map)
qed

lemma sample_std_zero:
  assumes "2 \<le> length vs" "sample_std vs = 0" "x \<in> set vs"
  shows "x = sample_mean vs"
proof -
  have "(\<Sum>v\<leftarrow>vs. (v - sample_mean vs)\<^sup>2) = 0"
    using assms(1,2) by (simp add: sample_std_def)
  moreover have "\<forall>y\<in>set (map (\<lambda>v. (v - sample_mean vs)\<^sup>2) vs). 0 \<le> y" by auto
  ultimately have "\<forall>y\<in>set (map (\<lambda>v. (v - sample_mean vs)\<^sup>2) vs). y = 0"
    using sum_list_nonneg_eq_0_iff by blast
  then show ?thesis using assms(3) by auto
qed

lemma present_mem: "Fin x \<in> set xs \<Longrightarrow> x \<in> set (present xs)"
  by (force simp: present_def)

text \<open>A column with an infinite cell has no standard deviation, hence no z-score.\<close>

lemma fsum_Cons: "fsum (z # zs) = fadd z (fsum zs)"
  by (simp add: fsum_def)

lemma fsum_NaN: "NaN \<in> set zs \<Longrightarrow> fsum zs = NaN"
proof (induction zs)
  case Nil
  then show ?case by simp
next
  case (Cons z zs)
  show ?case
  proof (cases "z = NaN")
    case True
    then show ?thesis by (simp add: fsum_Cons)
  next
    case False
    then have "fsum zs = NaN" using Cons by simp
    then show ?thesis by (cases z) (simp_all add: fsum_Cons)
  qed
qed

lemma fsum_one_sign:
  assumes "NaN \<notin> set zs"
  shows "fsum zs =
     (if PInf \<in> set zs \<and> NInf \<in> set zs then NaN
      else if PInf \<in> set zs then PInf
      else if NInf \<in> set zs then NInf
      else fsum zs) \<and>
     (PInf \<notin> set zs \<and> NInf \<notin> set zs \<longrightarrow> (\<exists>a. fsum zs = Fin a))"
  using assms
proof (induction zs)
  case Nil
  then show ?case by (simp add: fsum_def)
next
  case (Cons z zs)
  then have ih: "fsum zs =
     (if PInf \<in> set zs \<and> NInf \<in> set zs then NaN
      else if PInf \<in> set zs then PInf
      else if NInf \<in> set zs then NInf
      else fsum zs)" and fin: "PInf \<notin> set zs \<and> NInf \<notin> set zs \<longrightarrow> (\<exists>a. fsum zs = Fin a)"
    by simp_all
  show ?case
  proof (cases z)
    case (Fin a)
    show ?thesis
    proof (cases "PInf \<in> set zs"; cases "NInf \<in> set zs")
      assume "PInf \<notin> set zs" "NInf \<notin> set zs"
      then obtain b where "fsum zs = Fin b" using fin by blast
      then show ?thesis using Fin \<open>PInf \<notin> set zs\<close> \<open>NInf \<notin> set zs\<close> by (simp add: fsum_Cons)
    qed (use ih Fin in \<open>simp_all add: fsum_Cons\<close>)
  next
    case PInf
    show ?thesis
    proof (cases "PInf \<in> set zs"; cases "NInf \<in> set zs")
      assume "PInf \<notin> set zs" "NInf \<notin> set zs"
      then obtain b where "fsum zs = Fin b" using fin by blast
      then show ?thesis using PInf \<open>NInf \<notin> set zs\<close> by (simp add: fsum_Cons)
    qed (use ih PInf in \<open>simp_all add: fsum_Cons\<close>)
  next
    case NInf
    show ?thesis
    proof (cases "PInf \<in> set zs"; cases "NInf \<in> set zs")
      assume "PInf \<notin> set zs" "NInf \<notin> set zs"
      then obtain b where "fsum zs = Fin b" using fin by blast
      then show ?thesis using NInf \<open>PInf \<notin> set zs\<close> by (simp add: fsum_Cons)
    qed (use ih NInf in \<open>simp_all add: fsum_Cons\<close>)
  next
    case NaN
    then show ?thesis using Cons.prems by simp
  qed
qed

lemma map_memI: "x \<in> set ys \<Longrightarrow> f x \<in> set (map f ys)"
  by simp

lemma mean_with_inf:
  assumes "\<not> no_inf xs"
  shows "mean xs = NaN \<or> (mean xs = PInf \<and> PInf \<in> set xs) \<or> (mean xs = NInf \<and> NInf \<in> set xs)"
proof -
  let ?zs = "filter notna xs"
  have nn: "NaN \<notin> set ?zs" by (simp add: notna_def)
  have mem: "PInf \<in> set ?zs \<longleftrightarrow> PInf \<in> set xs" "NInf \<in> set ?zs \<longleftrightarrow> NInf \<in> set xs"
    by (simp_all add: notna_def)
  have some: "PInf \<in> set xs \<or> NInf \<in> set xs" using assms by (auto simp: no_inf_def)
  note cls = fsum_one_sign [OF nn, THEN conjunct1]
  consider (both) "PInf \<in> set xs" "NInf \<in> set xs" | (p) "PInf \<in> set xs" "NInf \<notin> set xs"
    | (n) "PInf \<notin> set xs" "NInf \<in> set xs"
    using some by blast
  then show ?thesis
  proof cases
    case both
    then have "fsum ?zs = NaN" using cls mem by simp
    then show ?thesis by (simp add: mean_def)
  next
    case p
    then have "fsum ?zs = PInf" using cls mem by simp
    then show ?thesis using p by (simp add: mean_def inf_of_sign_def)
  next
    case n
    then have "fsum ?zs = NInf" using cls mem by simp
    then show ?thesis using n by (simp add: mean_def inf_of_sign_def)
  qed
qed

lemma std_with_inf:
  assumes "\<not> no_inf xs"
  shows "std xs = NaN"
proof (cases "count xs \<le> 1")
  case True
  then show ?thesis by (simp add: std_def)
next
  case False
  let ?sqr = "map (\<lambda>x. fmul (fsub (mean xs) x) (fsub (mean xs) x)) (filter notna xs)"
  have ne: "filter notna xs \<noteq> []" using False by (auto simp: count_def)
  have "NaN \<in> set ?sqr"
    using mean_with_inf [OF assms]
  proof (elim disjE conjE)
    assume m: "mean xs = NaN"
    obtain x where "x \<in> set (filter notna xs)" using ne by (cases "filter notna xs") auto
    then have "fmul (fsub (mean xs) x) (fsub (mean xs) x) \<in> set ?sqr"
      by (rule map_memI [where f = "\<lambda>x. fmul (fsub (mean xs) x) (fsub (mean xs) x)"])
    then show ?thesis by (simp add: m fsub_def)
  next
    assume m: "mean xs = PInf" and x: "PInf \<in> set xs"
    have "PInf \<in> set (filter notna xs)" using x by (simp add: notna_def)
    then have "fmul (fsub (mean xs) PInf) (fsub (mean xs) PInf) \<in> set ?sqr"
      by (rule map_memI [where f = "\<lambda>x. fmul (fsub (mean xs) x) (fsub (mean xs) x)"])
    then show ?thesis by (simp add: m fsub_def)
  next
    assume m: "mean xs = NInf" and x: "NInf \<in> set xs"
    have "NInf \<in> set (filter notna xs)" using x by (simp add: notna_def)
    then have "fmul (fsub (mean xs) NInf) (fsub (mean xs) NInf) \<in> set ?sqr"
      by (rule map_memI [where f = "\<lambda>x. fmul (fsub (mean xs) x) (fsub (mean xs) x)"])
    then show ?thesis by (simp add: m fsub_def)
  qed
  then have "fsum ?sqr = NaN" by (rule fsum_NaN)
  then show ?thesis using False by (simp add: std_def Let_def)
qed

lemma z_column_with_inf: "\<not> no_inf xs \<Longrightarrow> r < length xs \<Longrightarrow> z_column xs ! r = NaN"
  by (cases "fsub (xs ! r) (mean xs)") (simp_all add: z_column_def std_with_inf)

lemma z_column_exceeds_finite:
  assumes "no_inf xs" "r < length xs"
  shows "fgt (z_column xs ! r) (Fin 3) \<longleftrightarrow> z_exceeds xs r 3"
proof (cases "xs ! r")
  case (Fin x)
  let ?vs = "present xs"
  have mem: "x \<in> set ?vs" using Fin assms(2) present_mem nth_mem by metis
  then have ne: "?vs \<noteq> []" by auto
  have m: "mean xs = Fin (sample_mean ?vs)" by (rule mean_no_inf [OF assms(1) ne])
  show ?thesis
  proof (cases "2 \<le> length ?vs")
    case True
    have s: "std xs = Fin (sample_std ?vs)" by (rule std_no_inf [OF assms(1) True])
    show ?thesis
    proof (cases "sample_std ?vs = 0")
      case z: True
      have "x = sample_mean ?vs" by (rule sample_std_zero [OF True z mem])
      then show ?thesis using assms Fin z
        by (simp add: z_column_def m s fsub_def z_exceeds_def)
    next
      case False
      then show ?thesis using assms Fin True sample_std_nonneg [of ?vs]
        by (simp add: z_column_def m s fsub_def z_exceeds_def)
    qed
  next
    case False
    then have "count xs \<le> 1" using count_no_inf [OF assms(1)] by simp
    then have "std xs = NaN" by (simp add: std_def)
    then show ?thesis using assms(2) Fin False
      by (simp add: z_column_def m fsub_def z_exceeds_def)
  qed
next
  case PInf
  then show ?thesis using assms nth_mem by (fastforce simp: no_inf_def)
next
  case NInf
  then show ?thesis using assms nth_mem by (fastforce simp: no_inf_def)
next
  case NaN
  then show ?thesis using assms(2)
    by (simp add: z_column_def fsub_def z_exceeds_def)
qed

lemma z_column_exceeds:
  assumes "r < length xs"
  shows "fgt (z_column xs ! r) (Fin 3) \<longleftrightarrow> z_exceeds xs r 3"
proof (cases "no_inf xs")
  case True
  then show ?thesis using assms by (rule z_column_exceeds_finite)
next
  case False
  then have "z_column xs ! r = NaN" using assms by (rule z_column_with_inf)
  then show ?thesis using False by (simp add: z_exceeds_def split: float.splits)
qed

lemma length_z_column: "length (z_column xs) = length xs"
  by (simp add: z_column_def)

lemma outliers_nth:
  assumes "r < n" "\<forall>(c, xs)\<in>set X. length xs = n"
  shows "outliers n (z_scores X) ! r \<longleftrightarrow> (\<exists>(c, xs)\<in>set X. fgt (z_column xs ! r) (Fin 3))"
proof -
  have "outliers n (z_scores X) ! r \<longleftrightarrow>
        (\<exists>(c, xs)\<in>set X. map (\<lambda>z. fgt z (Fin 3)) (z_column xs) ! r)"
    using assms(1) by (simp add: outliers_def gt3_def z_scores_def list_ex_iff case_prod_unfold)
  also have "\<dots> \<longleftrightarrow> (\<exists>(c, xs)\<in>set X. fgt (z_column xs ! r) (Fin 3))"
    using assms by (intro bex_cong refl) (auto simp: length_z_column)
  finally show ?thesis .
qed

lemma sqrt16: "sqrt 16 = 4"
  using real_sqrt_abs [of 4] by simp

lemma temp16_stats:
  "sample_std (present temp16) = 4" "sample_mean (present temp16) = 1"
  "length (present temp16) = 16"
  by (simp_all add: temp16_def present_def sample_std_def sample_mean_def sqrt16)

subsection \<open>The outlier mask\<close>

text \<open>
  In a frame whose columns all have \<open>n\<close> cells, the mask is true at row \<open>r\<close> exactly when
  some column has a z-score above 3 there, in the specification's real-number sense.
\<close>

lemma outliers_iff_z_exceeds:
  assumes "\<forall>(c, xs)\<in>set X. length xs = n" and "r < n"
  shows "outliers n (z_scores X) ! r \<longleftrightarrow> (\<exists>(c, xs)\<in>set X. z_exceeds xs r 3)"
proof -
  have "outliers n (z_scores X) ! r \<longleftrightarrow> (\<exists>(c, xs)\<in>set X. fgt (z_column xs ! r) (Fin 3))"
    using assms by (intro outliers_nth) auto
  also have "\<dots> \<longleftrightarrow> (\<exists>(c, xs)\<in>set X. z_exceeds xs r 3)"
    using assms z_column_exceeds by (intro bex_cong refl) auto
  finally show ?thesis .
qed

lemma outliers_iff_z_exceeds_example:
  "z_exceeds temp16 15 3 \<and> \<not> z_exceeds temp16 0 3 \<and>
   outliers 16 (z_scores [(''temp'', temp16)]) ! 15 \<and>
   \<not> outliers 16 (z_scores [(''temp'', temp16)]) ! 0"
proof -
  have hyp: "\<forall>(c, xs)\<in>set [(''temp'', temp16)]. length xs = 16"
    by (simp add: temp16_def)
  have fin: "no_inf temp16" by (simp add: temp16_def no_inf_def)
  have nth: "temp16 ! 15 = Fin 16" "temp16 ! 0 = Fin 0"
    by (simp_all add: temp16_def)
  have a: "z_exceeds temp16 15 3"
    by (simp add: z_exceeds_def temp16_stats nth fin)
  have b: "\<not> z_exceeds temp16 0 3"
    by (simp add: z_exceeds_def temp16_stats nth)
  show ?thesis
    using a b outliers_iff_z_exceeds [OF hyp, of 15] outliers_iff_z_exceeds [OF hyp, of 0] by simp
qed

subsection \<open>Columns without variance\<close>





lemma fdiv_NaN_left [simp]: "fdiv NaN y = NaN"
  by (cases y) simp_all

lemma fdiv_NaN_right [simp]: "fdiv x NaN = NaN"
  by (cases x) simp_all

lemma fsub_NaN_left [simp]: "fsub NaN y = NaN"
  by (simp add: fsub_def)

lemma fsub_self_inf [simp]: "fsub PInf PInf = NaN" "fsub NInf NInf = NaN"
  by (simp_all add: fsub_def)










lemma temp16_float_stats: "mean temp16 = Fin 1" "std temp16 = Fin 4"
proof -
  have n: "no_inf temp16" by (simp add: temp16_def no_inf_def)
  have ne: "present temp16 \<noteq> []" using temp16_stats(3) by auto
  show "mean temp16 = Fin 1"
    using mean_no_inf [OF n ne] temp16_stats by simp
  show "std temp16 = Fin 4"
    using std_no_inf [OF n] temp16_stats by simp
qed

lemma z_column_temp16:
  "z_column temp16 = [Fin (1/4), Fin (1/4), Fin (1/4), Fin (1/4), Fin (1/4), Fin (1/4), Fin (1/4), Fin (1/4),
             Fin (1/4), Fin (1/4), Fin (1/4), Fin (1/4), Fin (1/4), Fin (1/4), Fin (1/4), Fin (15/4)]"
  unfolding z_column_def temp16_float_stats by (simp add: temp16_def fsub_def)


subsection \<open>The outlier ratio\<close>

lemma length_filter_map_id: "length (filter id (map f zs)) = length (filter f zs)"
  by (induction zs) simp_all

text \<open>
  For a frame of columns of \<open>n\<close> cells, the ratio of a column is the number of its
  z-scores above 3, divided by \<open>n\<close>, times 100; with no row it is \<open>0/0\<close>, that is NaN.
\<close>

lemma outlier_ratio_frame:
  assumes "\<forall>(c, xs)\<in>set X. length xs = n"
  shows "outlier_ratio n (z_scores X) =
         map (\<lambda>(c, xs). (c, if n = 0 then NaN
                else Fin (real (length (filter (\<lambda>z. fgt z (Fin 3)) (z_column xs))) / real n * 100))) X"
proof -
  have key: "fmul (fdiv (Fin (real (length (filter id (map (\<lambda>z. fgt z (Fin 3)) (z_column xs))))))
                 (Fin (real n))) (Fin 100) =
        (if n = 0 then NaN
         else Fin (real (length (filter (\<lambda>z. fgt z (Fin 3)) (z_column xs))) / real n * 100))"
    if p: "(c, xs) \<in> set X" for c xs
  proof (cases "n = 0")
    case True
    then have "xs = []" using p assms by auto
    then show ?thesis using True by (simp add: z_column_def)
  next
    case False
    then show ?thesis by (simp add: length_filter_map_id)
  qed
  have "outlier_ratio n (z_scores X) =
        map (\<lambda>(c, xs). (c, fmul (fdiv (Fin (real (length (filter id
               (map (\<lambda>z. fgt z (Fin 3)) (z_column xs)))))) (Fin (real n))) (Fin 100))) X"
    by (simp only: outlier_ratio_def gt3_def z_scores_def map_map comp_def case_prod_unfold
        fst_conv snd_conv)
  also have "\<dots> = map (\<lambda>(c, xs). (c, if n = 0 then NaN
                else Fin (real (length (filter (\<lambda>z. fgt z (Fin 3)) (z_column xs))) / real n * 100))) X"
  proof (rule map_cong [OF refl])
    fix p assume p: "p \<in> set X"
    obtain c xs where cx: "p = (c, xs)" by (cases p)
    show "(case p of (c, xs) \<Rightarrow> (c, fmul (fdiv (Fin (real (length (filter id
               (map (\<lambda>z. fgt z (Fin 3)) (z_column xs)))))) (Fin (real n))) (Fin 100))) =
          (case p of (c, xs) \<Rightarrow> (c, if n = 0 then NaN
                else Fin (real (length (filter (\<lambda>z. fgt z (Fin 3)) (z_column xs))) / real n * 100)))"
      unfolding cx prod.case using key [of c xs] p cx by simp
  qed
  finally show ?thesis .
qed

lemma outlier_ratio_frame_example:
  "outlier_ratio 16 (z_scores [(''temp'', temp16)]) = [(''temp'', Fin (25 / 4))] \<and>
   outlier_ratio 0 (z_scores [(''temp'', [])]) = [(''temp'', NaN)]"
proof -
  have l1: "\<forall>(c, xs)\<in>set [(''temp'', temp16)]. length xs = 16" by (simp add: temp16_def)
  have l2: "\<forall>(c, xs)\<in>set [(''temp'', [])]. length xs = 0" by simp
  show ?thesis
    using outlier_ratio_frame [OF l1] outlier_ratio_frame [OF l2]
    by (simp add: z_column_temp16)
qed

subsection \<open>Loading and the three ways to stop\<close>

lemma try_encodings_all:
  "try_encodings lib encodings_to_try u =
     (case read_csv lib Utf8 u of
        (Some df, u1) \<Rightarrow> (Some df, u1)
      | (None, u1) \<Rightarrow>
          (case read_csv lib Cp949 u1 of
             (Some df, u2) \<Rightarrow> (Some df, u2)
           | (None, u2) \<Rightarrow>
               (case read_csv lib Latin1 u2 of
                  (Some df, u3) \<Rightarrow> (Some df, u3)
                | (None, u3) \<Rightarrow> (None, u3))))"
  by (simp add: encodings_to_try_def split: prod.splits option.splits)

text \<open>
  Claim C3. The attempts are made in the listed order and the first table is taken, but
  each attempt reads the same file object and none rewinds it. When the utf-8
  attempt fails after reading the stream to its end, and nothing can be parsed from an
  exhausted stream, the other two encodings are tried on nothing: the load ends in
  \<open>DecodeError\<close>, whatever cp949 or ISO-8859-1 would have made of the bytes.
\<close>

theorem retry_starts_where_failure_left_stream:
  assumes "read_csv lib Utf8 u = (None, u\<lparr>pos := length (data u)\<rparr>)"
    and "\<forall>enc. read_csv lib enc (u\<lparr>pos := length (data u)\<rparr>) = (None, u\<lparr>pos := length (data u)\<rparr>)"
  shows "load lib u = Inl DecodeError"
  using assms by (simp add: load_def try_encodings_all)

theorem retry_starts_where_failure_left_stream_witness:
  "load (demo_library demo_table) cp949_upload = Inl DecodeError \<and>
   fst (read_csv (demo_library demo_table) Cp949 cp949_upload) = Some demo_table"
proof -
  have a: "read_csv (demo_library demo_table) Utf8 cp949_upload =
           (None, cp949_upload\<lparr>pos := length (data cp949_upload)\<rparr>)"
    by (simp add: demo_library_def cp949_upload_def)
  have b: "\<forall>enc. read_csv (demo_library demo_table) enc
             (cp949_upload\<lparr>pos := length (data cp949_upload)\<rparr>) =
           (None, cp949_upload\<lparr>pos := length (data cp949_upload)\<rparr>)"
    by (simp add: demo_library_def cp949_upload_def)
  have c: "fst (read_csv (demo_library demo_table) Cp949 cp949_upload) = Some demo_table"
    by (simp add: demo_library_def cp949_upload_def)
  show ?thesis
    using retry_starts_where_failure_left_stream [OF a b] c by simp
qed



lemma pipeline_after_load:
  "load lib u = Inr df \<Longrightarrow>
   pipeline lib s e u =
     (if select_dtypes_number df = [] then Inl NoAnalyzableDataError
      else case normalize lib df of
                 (df1, False) \<Rightarrow> Inr (analyse lib (select_dtypes_number df) df1 False)
               | (df1, True) \<Rightarrow>
                   (case (ts_min (timestamps df1), ts_max (timestamps df1)) of
                      (Some lo, Some hi) \<Rightarrow>
                        Inr (analyse lib (select_dtypes_number df)
                          (date_filter (date_input s (date_of lo)) (date_input e (date_of hi)) df1) True)
                    | _ \<Rightarrow> Inl NaTDefault))"
  by (auto simp: pipeline_def Let_def split: prod.splits option.splits bool.splits)








subsection \<open>The exported outlier rows\<close>

lemma upt3: "[0..<3] = [0, 1, 2]" "[0..<2] = [0, 1]"
  by (simp_all add: upt_rec)

lemma steady_outliers:
  "outliers (len steady_table) (z_scores (select (select_dtypes_number steady_table) steady_table))
     = [False, False, False]"
proof -
  have m: "mean [Fin 1, Fin 2, Fin 3] = Fin 2"
    by (simp add: mean_def count_def notna_def fsum_def)
  have s: "std [Fin 1, Fin 2, Fin 3] = Fin 1"
    by (simp add: std_def m count_def notna_def fsum_def fsub_def Let_def)
  have z: "z_column [Fin 1, Fin 2, Fin 3] = [Fin 1, Fin 0, Fin 1]"
    by (simp add: z_column_def m s fsub_def)
  show ?thesis
    by (simp add: steady_table_def select_dtypes_number_def select_def len_def z_scores_def z
        outliers_def gt3_def upt3)
qed

lemma loc_no_row: "loc [False, False, False] steady_table = [(''temp'', NumCol [])]"
  by (simp add: loc_def iloc_def steady_table_def len_def upt3)

lemma load_never_empty: "load lib u = Inr t \<Longrightarrow> \<not> df_empty t"
  by (auto simp: load_def split: option.splits if_splits)

text \<open>
  When no row is an outlier the export does not load again (claim C8 says it does). For
  the three readings above the mask is false throughout and the exported subset has no
  row; whatever the library writes and parses, \<open>load\<close> never returns a table with no
  row, so re-loading the export cannot give back a table of the subset's row count.
\<close>

theorem empty_outlier_subset_does_not_reload:
  "\<not> (\<exists>lib t. load lib
        \<lparr>data = csv_outliers lib steady_table
           (outliers (len steady_table)
              (z_scores (select (select_dtypes_number steady_table) steady_table))),
         pos = 0\<rparr> = Inr t \<and>
       len t = len (loc (outliers (len steady_table)
              (z_scores (select (select_dtypes_number steady_table) steady_table))) steady_table))"
proof
  assume "\<exists>lib t. load lib
        \<lparr>data = csv_outliers lib steady_table
           (outliers (len steady_table)
              (z_scores (select (select_dtypes_number steady_table) steady_table))),
         pos = 0\<rparr> = Inr t \<and>
       len t = len (loc (outliers (len steady_table)
              (z_scores (select (select_dtypes_number steady_table) steady_table))) steady_table)"
  then obtain lib t where l: "load lib \<lparr>data = csv_outliers lib steady_table [False, False, False], pos = 0\<rparr> = Inr t"
    and n: "len t = len (loc [False, False, False] steady_table)"
    unfolding steady_outliers by blast
  have "len t = 0" using n by (simp add: loc_no_row len_def)
  then have "df_empty t" by (simp add: df_empty_def)
  then show False using load_never_empty [OF l] by simp
qed

subsection \<open>Tables: selecting rows and replacing a column\<close>

lemma wf_col_len: "wf df \<Longrightarrow> (c, col) \<in> set df \<Longrightarrow> col_len col = len df"
  by (auto simp: wf_def)

lemma wf_map_of: "wf df \<Longrightarrow> map_of df c = Some col \<Longrightarrow> col_len col = len df"
  by (auto simp: wf_def dest: map_of_SomeD)

lemma col_len_take_rows [simp]: "col_len (take_rows idx col) = length idx"
  by (cases col) simp_all

lemma columns_iloc [simp]: "map fst (iloc idx df) = map fst df"
  by (simp add: iloc_def case_prod_unfold)

lemma len_iloc: "df \<noteq> [] \<Longrightarrow> len (iloc idx df) = length idx"
  by (cases df) (auto simp: len_def iloc_def)


lemma cell_at_take_rows: "j < length idx \<Longrightarrow> cell_at (take_rows idx col) j = cell_at col (idx ! j)"
  by (cases col) simp_all

lemma row_iloc: "j < length idx \<Longrightarrow> row (iloc idx df) j = row df (idx ! j)"
  by (simp add: row_def iloc_def case_prod_unfold cell_at_take_rows)

lemma rows_iloc: "df \<noteq> [] \<Longrightarrow> rows (iloc idx df) = map (row df) idx"
  by (intro nth_equalityI) (simp_all add: rows_def len_iloc row_iloc)

lemma map_of_iloc: "map_of (iloc idx df) c = map_option (take_rows idx) (map_of df c)"
  by (induction df) (auto simp: iloc_def)

lemma timestamps_iloc:
  "map_of df ''timestamp'' = Some (TimeCol ts) \<Longrightarrow> timestamps (iloc idx df) = map (nth ts) idx"
  by (simp add: timestamps_def map_of_iloc)

lemma set_column_simps:
  "set_column c col [] = []"
  "set_column c col ((d, x) # df) = (if d = c then (d, col) else (d, x)) # set_column c col df"
  by (simp_all add: set_column_def)

lemma columns_set_column [simp]: "map fst (set_column c col df) = map fst df"
  by (simp add: set_column_def case_prod_unfold)

lemma map_of_set_column_same:
  "map_of df c = Some old \<Longrightarrow> map_of (set_column c col df) c = Some col"
proof (induction df)
  case Nil
  then show ?case by simp
next
  case (Cons p df)
  obtain d x where p: "p = (d, x)" by (cases p)
  show ?case using Cons unfolding p by (simp add: set_column_simps split: if_splits)
qed

lemma map_of_set_column_other:
  "d \<noteq> c \<Longrightarrow> map_of (set_column c col df) d = map_of df d"
proof (induction df)
  case Nil
  then show ?case by (simp add: set_column_simps)
next
  case (Cons p df)
  obtain e x where p: "p = (e, x)" by (cases p)
  show ?case using Cons unfolding p by (simp add: set_column_simps)
qed

lemma len_set_column:
  "col_len col = len df \<Longrightarrow> len (set_column c col df) = len df"
proof (cases df)
  case Nil
  then show ?thesis by (simp add: set_column_simps)
next
  case (Cons p rest)
  obtain d x where p: "p = (d, x)" by (cases p)
  assume "col_len col = len df"
  then show ?thesis unfolding Cons p by (simp add: set_column_simps len_def)
qed

lemma wf_set_column:
  assumes "wf df" "col_len col = len df"
  shows "wf (set_column c col df)"
proof -
  have "\<And>d x. (d, x) \<in> set (set_column c col df) \<Longrightarrow> col_len x = len df"
    using assms by (auto simp: set_column_def wf_def split: if_splits)
  moreover have "distinct (map fst (set_column c col df))"
    using assms(1) by (simp add: wf_def)
  ultimately show ?thesis
    unfolding wf_def [of "set_column c col df"] len_set_column [OF assms(2)] by blast
qed

lemma loc_eq_iloc:
  "length flags = len df \<Longrightarrow> loc flags df = iloc (filter (nth flags) [0..<len df]) df"
  by (simp add: loc_def)

lemma argsort_no_NaT:
  "None \<notin> set ts \<Longrightarrow> argsort ts = sort_key (\<lambda>i. the (ts ! i)) [0..<length ts]"
proof -
  assume a: "None \<notin> set ts"
  have "\<And>i. i < length ts \<Longrightarrow> ts ! i \<noteq> None" using a nth_mem by metis
  then have "filter (\<lambda>i. ts ! i \<noteq> None) [0..<length ts] = [0..<length ts]"
    and "filter (\<lambda>i. ts ! i = None) [0..<length ts] = []"
    by (auto simp: filter_empty_conv)
  then show ?thesis by (simp add: argsort_def)
qed

lemma mset_argsort: "mset (argsort ts) = mset [0..<length ts]"
proof -
  have "mset (argsort ts) =
        mset (filter (\<lambda>i. ts ! i \<noteq> None) [0..<length ts]) +
        mset (filter (\<lambda>i. \<not> ts ! i \<noteq> None) [0..<length ts])"
    by (simp add: argsort_def)
  also have "\<dots> = mset [0..<length ts]"
    by (simp only: mset_filter multiset_partition [symmetric])
  finally show ?thesis .
qed

lemma map_nth_upt: "map (\<lambda>j. f (xs ! j)) [0..<length xs] = map f xs"
  by (intro nth_equalityI) simp_all

subsection \<open>Time normalisation\<close>

lemma normalize_absent:
  "map_of df ''timestamp'' = None \<Longrightarrow> normalize lib df = (df, False)"
  by (simp add: normalize_def)

lemma timestamp_in_columns:
  "''timestamp'' \<in> set (columns df) \<longleftrightarrow> map_of df ''timestamp'' \<noteq> None"
  by (simp add: columns_def map_of_eq_None_iff)

lemma normalize_present:
  assumes "wf df" "map_of df ''timestamp'' = Some col"
  shows "snd (normalize lib df)"
    and "fst (normalize lib df) =
         iloc (argsort (map (to_datetime lib col) (parsed_rows lib df)))
           (iloc (parsed_rows lib df) (with_parsed_timestamps lib df))"
    and "timestamps (iloc (parsed_rows lib df) (with_parsed_timestamps lib df)) =
         map (to_datetime lib col) (parsed_rows lib df)"
    and "wf (with_parsed_timestamps lib df)" and "len (with_parsed_timestamps lib df) = len df"
    and "map_of (iloc (parsed_rows lib df) (with_parsed_timestamps lib df)) ''timestamp'' =
         Some (TimeCol (map (to_datetime lib col) (parsed_rows lib df)))"
proof -
  define n where "n = len df"
  define P where "P = map (to_datetime lib col) [0..<n]"
  define df1 where "df1 = set_column ''timestamp'' (TimeCol P) df"
  define K where "K = filter (\<lambda>i. to_datetime lib col i \<noteq> None) [0..<n]"
  have cl: "col_len col = n" using wf_map_of [OF assms] by (simp add: n_def)
  have lenP: "col_len (TimeCol P) = len df" by (simp add: P_def n_def)
  have w1: "with_parsed_timestamps lib df = df1"
    by (simp add: with_parsed_timestamps_def assms(2) df1_def P_def cl)
  have pr: "parsed_rows lib df = K"
    by (simp add: parsed_rows_def assms(2) K_def n_def)
  have len1: "len df1 = n" unfolding df1_def n_def by (rule len_set_column [OF lenP])
  have wf1: "wf df1" unfolding df1_def by (rule wf_set_column [OF assms(1) lenP])
  have ts1: "map_of df1 ''timestamp'' = Some (TimeCol P)"
    unfolding df1_def by (rule map_of_set_column_same [OF assms(2)])
  have flt: "filter (nth (map (\<lambda>t. t \<noteq> None) P)) [0..<n] = K"
    unfolding K_def P_def by (rule filter_cong) auto
  have loc1: "loc (map (\<lambda>t. t \<noteq> None) P) df1 = iloc K df1"
    by (simp only: loc_def len1 flt)
  have "\<And>i. i \<in> set K \<Longrightarrow> i < n" by (auto simp: K_def)
  then have PK: "map (nth P) K = map (to_datetime lib col) K"
    unfolding P_def by (auto intro: map_cong)
  have T2: "timestamps (iloc K df1) = map (to_datetime lib col) K"
    unfolding timestamps_iloc [OF ts1] by (rule PK)
  have M2: "map_of (iloc K df1) ''timestamp'' = Some (TimeCol (map (to_datetime lib col) K))"
    by (simp add: map_of_iloc ts1 PK)
  have nz: "normalize lib df = (iloc (argsort (timestamps (iloc K df1))) (iloc K df1), True)"
    by (simp add: normalize_def assms(2) cl Let_def P_def [symmetric] df1_def [symmetric] loc1
        del: not_None_eq)
  show "snd (normalize lib df)" by (simp add: nz)
  show "fst (normalize lib df) =
         iloc (argsort (map (to_datetime lib col) (parsed_rows lib df)))
           (iloc (parsed_rows lib df) (with_parsed_timestamps lib df))"
    by (simp add: nz T2 w1 pr)
  show "timestamps (iloc (parsed_rows lib df) (with_parsed_timestamps lib df)) =
         map (to_datetime lib col) (parsed_rows lib df)"
    by (simp add: T2 w1 pr)
  show "wf (with_parsed_timestamps lib df)" by (simp add: w1 wf1)
  show "len (with_parsed_timestamps lib df) = len df" by (simp add: w1 len1 n_def)
  show "map_of (iloc (parsed_rows lib df) (with_parsed_timestamps lib df)) ''timestamp'' =
         Some (TimeCol (map (to_datetime lib col) (parsed_rows lib df)))"
    by (simp add: M2 w1 pr)
qed

lemma parsed_rows_no_NaT:
  "map_of df ''timestamp'' = Some col \<Longrightarrow>
   None \<notin> set (map (to_datetime lib col) (parsed_rows lib df))"
  by (auto simp: parsed_rows_def)

lemma with_parsed_nonempty:
  "map_of df ''timestamp'' = Some col \<Longrightarrow> with_parsed_timestamps lib df \<noteq> []"
  by (cases df) (auto simp: with_parsed_timestamps_def set_column_simps)

text \<open>
  Claim C5. For a well-formed table, normalisation runs exactly when a column is named
  \<open>timestamp\<close>, letter for letter; otherwise the table is left as it is. When it runs, the
  rows of the result are exactly the rows whose timestamp parses (each with its parsed
  instant in place of the raw value), every remaining timestamp is an instant, and they
  ascend. The function has no failing branch: a value that does not parse only removes
  its row.
\<close>

theorem normalize_drops_then_sorts:
  assumes "wf df"
  shows "(snd (normalize lib df) \<longleftrightarrow> ''timestamp'' \<in> set (columns df)) \<and>
         (''timestamp'' \<notin> set (columns df) \<longrightarrow> fst (normalize lib df) = df) \<and>
         mset (rows (fst (normalize lib df))) =
           mset (map (row (with_parsed_timestamps lib df)) (parsed_rows lib df)) \<and>
         (''timestamp'' \<in> set (columns df) \<longrightarrow>
            None \<notin> set (timestamps (fst (normalize lib df))) \<and>
            sorted (map the (timestamps (fst (normalize lib df)))))"
proof (cases "map_of df ''timestamp''")
  case None
  have "with_parsed_timestamps lib df = df" by (simp add: with_parsed_timestamps_def None)
  moreover have "parsed_rows lib df = [0..<len df]" by (simp add: parsed_rows_def None)
  ultimately show ?thesis
    using None by (simp add: normalize_absent timestamp_in_columns rows_def)
next
  case (Some col)
  let ?K = "parsed_rows lib df"
  let ?df1 = "with_parsed_timestamps lib df"
  let ?T = "map (to_datetime lib col) ?K"
  note np = normalize_present [OF assms Some, of lib]
  have ne1: "?df1 \<noteq> []" by (rule with_parsed_nonempty [OF Some])
  have ne2: "iloc ?K ?df1 \<noteq> []" using ne1 by (simp add: iloc_def)
  have none: "None \<notin> set ?T" by (rule parsed_rows_no_NaT [OF Some])
  have ts2: "map_of (iloc ?K ?df1) ''timestamp'' = Some (TimeCol ?T)"
    by (rule np(6))
  have rows3: "rows (fst (normalize lib df)) = map (row (iloc ?K ?df1)) (argsort ?T)"
    unfolding np(2) by (rule rows_iloc [OF ne2])
  have "mset (rows (fst (normalize lib df))) = image_mset (row (iloc ?K ?df1)) (mset (argsort ?T))"
    by (simp add: rows3)
  also have "\<dots> = mset (map (row (iloc ?K ?df1)) [0..<length ?K])"
    by (simp add: mset_argsort)
  also have "map (row (iloc ?K ?df1)) [0..<length ?K] = map (\<lambda>j. row ?df1 (?K ! j)) [0..<length ?K]"
    by (rule map_cong) (simp_all add: row_iloc)
  also have "\<dots> = map (row ?df1) ?K" by (rule map_nth_upt)
  finally have m: "mset (rows (fst (normalize lib df))) = mset (map (row ?df1) ?K)" .
  have ts3: "timestamps (fst (normalize lib df)) = map (nth ?T) (argsort ?T)"
    unfolding np(2) by (rule timestamps_iloc [OF ts2])
  have as: "argsort ?T = sort_key (\<lambda>i. the (?T ! i)) [0..<length ?T]"
    by (rule argsort_no_NaT [OF none])
  have "set (argsort ?T) = {0..<length ?T}"
    using mset_argsort [of ?T] by (metis mset_eq_setD set_upt)
  then have "set (map (nth ?T) (argsort ?T)) \<subseteq> set ?T"
    using nth_mem [of _ ?T] by (auto simp del: length_map nth_map)
  then have n3: "None \<notin> set (timestamps (fst (normalize lib df)))"
    unfolding ts3 using none by blast
  have "map the (timestamps (fst (normalize lib df))) =
        map (\<lambda>i. the (?T ! i)) (sort_key (\<lambda>i. the (?T ! i)) [0..<length ?T])"
    unfolding ts3 as by simp
  then have s3: "sorted (map the (timestamps (fst (normalize lib df))))"
    by (simp only: sorted_sort_key)
  show ?thesis
    using Some np(1) m n3 s3 by (simp add: timestamp_in_columns)
qed

lemma stamped_facts:
  "wf stamped_table" "len stamped_table = 3" "columns stamped_table = [''timestamp'', ''temp'']"
  "with_parsed_timestamps (demo_library t) stamped_table =
     [(''timestamp'', TimeCol [Some 300, None, Some 100]), (''temp'', NumCol [Fin 1, Fin 2, Fin 3])]"
  "parsed_rows (demo_library t) stamped_table = [0, 2]"
  by (simp_all add: stamped_table_def wf_def len_def columns_def with_parsed_timestamps_def
      parsed_rows_def upt3 set_column_simps demo_library_def)

lemma capital_facts:
  "wf capital_table" "columns capital_table = [''Timestamp'', ''temp'']"
  by (simp_all add: capital_table_def wf_def len_def columns_def)

theorem normalize_drops_then_sorts_witness:
  "snd (normalize (demo_library demo_table) stamped_table) \<and>
   sorted (map the (timestamps (fst (normalize (demo_library demo_table) stamped_table)))) \<and>
   mset (rows (fst (normalize (demo_library demo_table) stamped_table))) =
     {#[Time (Some 100), Num (Fin 3)], [Time (Some 300), Num (Fin 1)]#} \<and>
   normalize (demo_library demo_table) capital_table = (capital_table, False)"
proof -
  have a: "snd (normalize (demo_library demo_table) stamped_table) \<and>
   sorted (map the (timestamps (fst (normalize (demo_library demo_table) stamped_table)))) \<and>
   mset (rows (fst (normalize (demo_library demo_table) stamped_table))) =
     {#[Time (Some 100), Num (Fin 3)], [Time (Some 300), Num (Fin 1)]#}"
    using normalize_drops_then_sorts [OF stamped_facts(1), of "demo_library demo_table"]
    by (simp add: stamped_facts row_def)
  have b: "normalize (demo_library demo_table) capital_table = (capital_table, False)"
    using normalize_drops_then_sorts [OF capital_facts(1), of "demo_library demo_table"]
    by (simp add: capital_facts prod_eq_iff)
  show ?thesis using a b by simp
qed

subsection \<open>The date filter\<close>

lemma take_rows_all: "col_len col = n \<Longrightarrow> take_rows [0..<n] col = col"
  by (cases col) (auto simp: map_nth)

lemma iloc_all: "wf df \<Longrightarrow> iloc [0..<len df] df = df"
proof -
  assume w: "wf df"
  have "map (\<lambda>(c, col). (c, take_rows [0..<len df] col)) df = map (\<lambda>p. p) df"
    by (rule map_cong) (use w in \<open>auto simp: wf_def take_rows_all\<close>)
  then show ?thesis by (simp add: iloc_def)
qed

lemma nth_date_mask:
  "i < length ts \<Longrightarrow>
   date_mask s e ts ! i = (case ts ! i of None \<Rightarrow> False | Some t \<Rightarrow> s \<le> date_of t \<and> date_of t \<le> e)"
  by (simp add: date_mask_def)

lemma date_filter_iloc:
  assumes "wf df" "map_of df ''timestamp'' = Some (TimeCol ts)"
  shows "date_filter s e df =
         iloc (filter (\<lambda>i. case ts ! i of None \<Rightarrow> False
                          | Some t \<Rightarrow> s \<le> date_of t \<and> date_of t \<le> e) [0..<len df]) df"
proof -
  have l: "length ts = len df" using wf_map_of [OF assms] by simp
  have t: "timestamps df = ts" by (simp add: timestamps_def assms(2))
  have "filter (nth (date_mask s e ts)) [0..<len df] =
        filter (\<lambda>i. case ts ! i of None \<Rightarrow> False
                          | Some t \<Rightarrow> s \<le> date_of t \<and> date_of t \<le> e) [0..<len df]"
    by (rule filter_cong) (simp_all add: nth_date_mask l)
  then show ?thesis by (simp add: date_filter_def t loc_def)
qed

lemma ts_min_le:
  assumes "ts_min ts = Some lo" "Some t \<in> set ts"
  shows "lo \<le> t"
proof -
  obtain a rest where m: "List.map_filter id ts = a # rest" and lo: "lo = fold min rest a"
    using assms(1) by (auto simp: ts_min_def split: list.splits)
  have "t \<in> set (List.map_filter id ts)" using assms(2) by (force simp: map_filter_def)
  then have "t \<in> set (a # rest)" by (simp add: m)
  moreover have "lo = Min (set (a # rest))" unfolding lo by (rule Min.set_eq_fold [symmetric])
  ultimately show ?thesis by simp
qed

lemma ts_max_ge:
  assumes "ts_max ts = Some hi" "Some t \<in> set ts"
  shows "t \<le> hi"
proof -
  obtain a rest where m: "List.map_filter id ts = a # rest" and hi: "hi = fold max rest a"
    using assms(1) by (auto simp: ts_max_def split: list.splits)
  have "t \<in> set (List.map_filter id ts)" using assms(2) by (force simp: map_filter_def)
  then have "t \<in> set (a # rest)" by (simp add: m)
  moreover have "hi = Max (set (a # rest))" unfolding hi by (rule Max.set_eq_fold [symmetric])
  ultimately show ?thesis by simp
qed

lemma date_of_mono: "a \<le> b \<Longrightarrow> date_of a \<le> date_of b"
  by (simp add: date_of_def ns_per_day_def zdiv_mono1)

text \<open>
  Claim C6. On a well-formed table with a parsed \<open>timestamp\<close> column, the filter keeps, in
  their order, exactly the rows whose timestamp has a date \<open>d\<close> with
  \<open>start_date \<le> d \<le> end_date\<close>: both ends included, the time of day ignored, since only
  \<open>date_of\<close> enters. A range that holds no row gives a table without rows, and the filter has
  no failing branch. Left alone, the widgets return the dates of the least and the
  greatest timestamp, and the filter then keeps the whole normalised table; a picked date
  is returned as picked.
\<close>

theorem date_filter_inclusive:
  assumes "wf df" and "map_of df ''timestamp'' = Some (TimeCol ts)"
  shows "rows (date_filter start_date end_date df) =
           map (row df)
             (filter (\<lambda>i. case ts ! i of None \<Rightarrow> False
                        | Some t \<Rightarrow> start_date \<le> date_of t \<and> date_of t \<le> end_date)
                [0..<len df]) \<and>
         (end_date < start_date \<longrightarrow> rows (date_filter start_date end_date df) = []) \<and>
         (None \<notin> set ts \<and> ts_min ts = Some lo \<and> ts_max ts = Some hi \<longrightarrow>
            date_filter (date_input None (date_of lo)) (date_input None (date_of hi)) df = df) \<and>
         date_input (Some d) dflt = d"
proof -
  have ne: "df \<noteq> []" using assms(2) by auto
  have l: "length ts = len df" using wf_map_of [OF assms] by simp
  have r: "rows (date_filter s e df) =
           map (row df) (filter (\<lambda>i. case ts ! i of None \<Rightarrow> False
                        | Some t \<Rightarrow> s \<le> date_of t \<and> date_of t \<le> e) [0..<len df])" for s e
    unfolding date_filter_iloc [OF assms] by (rule rows_iloc [OF ne])
  have "filter (\<lambda>i. case ts ! i of None \<Rightarrow> False
                        | Some t \<Rightarrow> start_date \<le> date_of t \<and> date_of t \<le> end_date) [0..<len df] = []"
    if "end_date < start_date"
    using that by (auto simp: filter_empty_conv split: option.splits)
  then have emp: "end_date < start_date \<longrightarrow> rows (date_filter start_date end_date df) = []"
    by (simp add: r)
  have dflt: "date_filter (date_input None (date_of lo)) (date_input None (date_of hi)) df = df"
    if a: "None \<notin> set ts" "ts_min ts = Some lo" "ts_max ts = Some hi"
  proof -
    have "case ts ! i of None \<Rightarrow> False | Some t \<Rightarrow> date_of lo \<le> date_of t \<and> date_of t \<le> date_of hi"
      if "i < len df" for i
    proof (cases "ts ! i")
      case None
      then show ?thesis using a(1) that l nth_mem by metis
    next
      case (Some t)
      then have "Some t \<in> set ts" using that l nth_mem by metis
      then show ?thesis
        using Some ts_min_le [OF a(2)] ts_max_ge [OF a(3)] date_of_mono by simp
    qed
    then have "filter (\<lambda>i. case ts ! i of None \<Rightarrow> False
                 | Some t \<Rightarrow> date_of lo \<le> date_of t \<and> date_of t \<le> date_of hi) [0..<len df] = [0..<len df]"
      by (simp add: filter_id_conv)
    then show ?thesis
      by (simp add: date_input_def date_filter_iloc [OF assms] iloc_all [OF assms(1)])
  qed
  show ?thesis using r emp dflt by (simp add: date_input_def)
qed

lemma dated_facts:
  "wf dated_table" "len dated_table = 4"
  "map_of dated_table ''timestamp'' =
     Some (TimeCol [Some 0, Some 86400000000000, Some 172799999999999, Some 172800000000000])"
  by (simp_all add: dated_table_def wf_def len_def)

lemma upt4: "[0..<4] = [0, 1, 2, 3]"
  by (simp add: upt_rec)

theorem date_filter_inclusive_witness:
  "rows (date_filter 1 1 dated_table) =
     [[Time (Some 86400000000000), Num (Fin 2)], [Time (Some 172799999999999), Num (Fin 3)]] \<and>
   rows (date_filter 1 2 dated_table) =
     [[Time (Some 86400000000000), Num (Fin 2)], [Time (Some 172799999999999), Num (Fin 3)],
      [Time (Some 172800000000000), Num (Fin 4)]] \<and>
   rows (date_filter 2 1 dated_table) = [] \<and>
   date_filter (date_input None (date_of 0)) (date_input None (date_of 172800000000000))
     dated_table = dated_table"
proof -
  have mm: "ts_min [Some 0, Some 86400000000000, Some 172799999999999, Some 172800000000000] = Some 0"
    "ts_max [Some 0, Some 86400000000000, Some 172799999999999, Some 172800000000000] =
       Some 172800000000000"
    by (simp_all add: ts_min_def ts_max_def map_filter_def)
  have d: "date_of 0 = 0" "date_of 86400000000000 = 1" "date_of 172799999999999 = 1"
    "date_of 172800000000000 = 2"
    by (simp_all add: date_of_def ns_per_day_def)
  note t = date_filter_inclusive [OF dated_facts(1,3)]
  show ?thesis
    using t [of 1 1 0 172800000000000] t [of 1 2 0 172800000000000] t [of 2 1 0 172800000000000] mm
    by (simp add: dated_facts(2) upt4 d) (simp add: dated_table_def row_def)
qed

subsection \<open>The analysed columns\<close>

lemma rows_normalize_mset:
  assumes "wf df"
  shows "mset (rows (fst (normalize lib df))) =
         mset (map (row (with_parsed_timestamps lib df)) (parsed_rows lib df))"
proof (cases "map_of df ''timestamp''")
  case None
  have "with_parsed_timestamps lib df = df" by (simp add: with_parsed_timestamps_def None)
  moreover have "parsed_rows lib df = [0..<len df]" by (simp add: parsed_rows_def None)
  ultimately show ?thesis by (simp add: normalize_absent None rows_def)
next
  case (Some col)
  let ?K = "parsed_rows lib df"
  let ?df1 = "with_parsed_timestamps lib df"
  let ?T = "map (to_datetime lib col) ?K"
  note np = normalize_present [OF assms Some, of lib]
  have ne1: "?df1 \<noteq> []" by (rule with_parsed_nonempty [OF Some])
  have ne2: "iloc ?K ?df1 \<noteq> []" using ne1 by (simp add: iloc_def)
  have rows3: "rows (fst (normalize lib df)) = map (row (iloc ?K ?df1)) (argsort ?T)"
    unfolding np(2) by (rule rows_iloc [OF ne2])
  have "mset (rows (fst (normalize lib df))) = image_mset (row (iloc ?K ?df1)) (mset (argsort ?T))"
    by (simp add: rows3)
  also have "\<dots> = mset (map (row (iloc ?K ?df1)) [0..<length ?K])"
    by (simp add: mset_argsort)
  also have "map (row (iloc ?K ?df1)) [0..<length ?K] = map (\<lambda>j. row ?df1 (?K ! j)) [0..<length ?K]"
    by (rule map_cong) (simp_all add: row_iloc)
  also have "\<dots> = map (row ?df1) ?K" by (rule map_nth_upt)
  finally show ?thesis .
qed

lemma parsed_rows_filter: "\<exists>P. parsed_rows lib df = filter P [0..<len df]"
proof (cases "map_of df ''timestamp''")
  case None
  then have "parsed_rows lib df = filter (\<lambda>i. True) [0..<len df]" by (simp add: parsed_rows_def)
  then show ?thesis by blast
next
  case (Some col)
  then show ?thesis by (auto simp: parsed_rows_def)
qed

lemma len_with_parsed:
  assumes "wf df"
  shows "len (with_parsed_timestamps lib df) = len df"
proof (cases "map_of df ''timestamp''")
  case None
  then show ?thesis by (simp add: with_parsed_timestamps_def)
next
  case (Some col)
  show ?thesis by (rule normalize_present(5) [OF assms Some])
qed

lemma mset_map_filter_subset: "mset (map f (filter P xs)) \<subseteq># mset (map f xs)"
  by (simp add: image_mset_subseteq_mono)

lemma rows_normalize_subset:
  assumes "wf df"
  shows "mset (rows (fst (normalize lib df))) \<subseteq># mset (rows (with_parsed_timestamps lib df))"
proof -
  obtain P where P: "parsed_rows lib df = filter P [0..<len df]"
    using parsed_rows_filter by blast
  have a: "mset (rows (fst (normalize lib df))) =
           mset (map (row (with_parsed_timestamps lib df)) (filter P [0..<len df]))"
    using rows_normalize_mset [OF assms, of lib] by (simp only: P)
  have b: "rows (with_parsed_timestamps lib df) =
           map (row (with_parsed_timestamps lib df)) [0..<len df]"
    by (simp only: rows_def len_with_parsed [OF assms])
  show ?thesis unfolding a b by (rule mset_map_filter_subset)
qed

lemma columns_normalize: "wf df \<Longrightarrow> map fst (fst (normalize lib df)) = map fst df"
proof (cases "map_of df ''timestamp''")
  case None
  then show ?thesis by (simp add: normalize_absent)
next
  case (Some col)
  assume "wf df"
  from normalize_present(2) [OF this Some, of lib] show ?thesis
    by (simp add: with_parsed_timestamps_def Some)
qed


lemma normalize_timestamp_column:
  assumes "wf df" "map_of df ''timestamp'' = Some col"
  shows "\<exists>ts. map_of (fst (normalize lib df)) ''timestamp'' = Some (TimeCol ts)"
proof -
  note np = normalize_present [OF assms, of lib]
  have "map_of (fst (normalize lib df)) ''timestamp'' =
        map_option (take_rows (argsort (map (to_datetime lib col) (parsed_rows lib df))))
          (map_of (iloc (parsed_rows lib df) (with_parsed_timestamps lib df)) ''timestamp'')"
    unfolding np(2) by (rule map_of_iloc)
  also have "\<dots> = Some (take_rows (argsort (map (to_datetime lib col) (parsed_rows lib df)))
      (TimeCol (map (to_datetime lib col) (parsed_rows lib df))))"
    by (simp only: np(6) option.map)
  finally show ?thesis by simp
qed

lemma rows_loc_subset:
  assumes "df \<noteq> []"
  shows "mset (rows (loc flags df)) \<subseteq># mset (rows df)"
proof -
  have a: "rows (loc flags df) = map (row df) (filter (nth flags) [0..<len df])"
    unfolding loc_def by (rule rows_iloc [OF assms])
  show ?thesis unfolding a rows_def [of df] by (rule mset_map_filter_subset)
qed

lemma date_filter_facts:
  assumes "df \<noteq> []"
  shows "map fst (date_filter s e df) = map fst df"
    and "mset (rows (date_filter s e df)) \<subseteq># mset (rows df)"
    and "map_of df ''timestamp'' = Some (TimeCol ts) \<Longrightarrow>
         \<exists>ts'. map_of (date_filter s e df) ''timestamp'' = Some (TimeCol ts')"
  using rows_loc_subset [OF assms]
  by (simp_all add: date_filter_def loc_def map_of_iloc)

lemma numeric_in_distinct:
  assumes "distinct (map fst df)" "(c, col) \<in> set df"
  shows "c \<in> set (select_dtypes_number df) \<longleftrightarrow> is_number col"
proof
  assume "c \<in> set (select_dtypes_number df)"
  then obtain col' where "(c, col') \<in> set df" "is_number col'"
    by (auto simp: select_dtypes_number_def)
  moreover have "col' = col" using assms calculation(1) by (meson eq_key_imp_eq_value)
  ultimately show "is_number col" by simp
next
  assume "is_number col"
  then show "c \<in> set (select_dtypes_number df)"
    using assms(2) by (force simp: select_dtypes_number_def)
qed

lemma select_names:
  assumes "wf df0" "map fst df = map fst df0"
  shows "map fst (select (select_dtypes_number df0) df) = select_dtypes_number df0"
proof -
  have "map fst (select (select_dtypes_number df0) df) =
        filter (\<lambda>c. c \<in> set (select_dtypes_number df0)) (map fst df)"
    by (simp add: select_def filter_map comp_def case_prod_unfold)
  also have "\<dots> = filter (\<lambda>c. c \<in> set (select_dtypes_number df0)) (map fst df0)"
    by (simp add: assms(2))
  also have "\<dots> = map fst (filter (\<lambda>p. fst p \<in> set (select_dtypes_number df0)) df0)"
    by (simp add: filter_map comp_def)
  also have "filter (\<lambda>p. fst p \<in> set (select_dtypes_number df0)) df0 =
             filter (\<lambda>(c, col). is_number col) df0"
    by (rule filter_cong) (use assms(1) in \<open>auto simp: wf_def numeric_in_distinct\<close>)
  finally show ?thesis by (simp add: select_dtypes_number_def)
qed

lemma analyse_names:
  "res_table (analyse lib nc df b) = df" "res_numeric_cols (analyse lib nc df b) = nc"
  "map fst (res_z_scores (analyse lib nc df b)) = map fst (select nc df)"
  "map fst (res_outlier_ratio (analyse lib nc df b)) = map fst (select nc df)"
  "map fst (res_corr (analyse lib nc df b)) = map fst (select nc df)"
  by (simp_all add: analyse_def Let_def z_scores_def outlier_ratio_def gt3_def corr_def
      case_prod_unfold comp_def)

lemma pipeline_Inr_cases:
  assumes "load lib u = Inr df0" "pipeline lib s e u = Inr res"
  obtains (plain) "map_of df0 ''timestamp'' = None"
      "res = analyse lib (select_dtypes_number df0) df0 False"
    | (dated) col s' e' where "map_of df0 ''timestamp'' = Some col"
      "res = analyse lib (select_dtypes_number df0)
               (date_filter s' e' (fst (normalize lib df0))) True"
proof (cases "map_of df0 ''timestamp''")
  case None
  then have "res = analyse lib (select_dtypes_number df0) df0 False"
    using assms by (simp add: pipeline_after_load normalize_absent split: if_splits)
  then show ?thesis using None plain by blast
next
  case (Some col)
  have "snd (normalize lib df0)" by (simp add: normalize_def Some Let_def)
  then obtain df1 where n: "normalize lib df0 = (df1, True)" by (cases "normalize lib df0") auto
  then have "\<exists>s' e'. res = analyse lib (select_dtypes_number df0)
               (date_filter s' e' (fst (normalize lib df0))) True"
    using assms by (auto simp: pipeline_after_load split: if_splits option.splits)
  then show ?thesis using Some dated by blast
qed

text \<open>
  Claim C10. Take a run that loads a well-formed table and reaches the analysis. The
  numeric columns it analyses are those of the table as loaded: the z-scores, the outlier
  ratio and the correlation matrix are keyed by exactly these names, in this order.
  Normalisation and the date filter keep every column name in its place, and every row of
  the analysed table is a row of the loaded table (with its timestamp parsed), none more
  often than there: only which rows are present, and their order, change. A \<open>timestamp\<close>
  column that was numeric when loaded stays among the analysed columns although the
  analysed table holds it as parsed instants.
\<close>

theorem numeric_columns_fixed_at_load:
  assumes "load lib u = Inr df0" and "wf df0" and "pipeline lib picked_start picked_end u = Inr res"
  shows "res_numeric_cols res = select_dtypes_number df0 \<and>
         columns (res_table res) = columns df0 \<and>
         map fst (res_z_scores res) = select_dtypes_number df0 \<and>
         map fst (res_outlier_ratio res) = select_dtypes_number df0 \<and>
         map fst (res_corr res) = select_dtypes_number df0 \<and>
         mset (rows (res_table res)) \<subseteq># mset (rows (with_parsed_timestamps lib df0)) \<and>
         (\<forall>xs. map_of df0 ''timestamp'' = Some (NumCol xs) \<longrightarrow>
            ''timestamp'' \<in> set (res_numeric_cols res) \<and>
            (\<exists>ts. map_of (res_table res) ''timestamp'' = Some (TimeCol ts)))"
proof -
  have ne0: "df0 \<noteq> []" using assms(1) load_never_empty by (auto simp: df_empty_def)
  from assms(1,3) show ?thesis
  proof (cases rule: pipeline_Inr_cases)
    case plain
    have w: "with_parsed_timestamps lib df0 = df0"
      by (simp add: with_parsed_timestamps_def plain(1))
    show ?thesis
      unfolding plain(2) analyse_names columns_def
      using plain(1) by (simp add: select_names [OF assms(2)] w)
  next
    case (dated col s' e')
    let ?n = "fst (normalize lib df0)"
    have nen: "?n \<noteq> []"
      using columns_normalize [OF assms(2), of lib] ne0 by (metis map_is_Nil_conv)
    have cols: "map fst (date_filter s' e' ?n) = map fst df0"
      by (simp add: date_filter_facts(1) [OF nen] columns_normalize [OF assms(2)])
    have sub: "mset (rows (date_filter s' e' ?n)) \<subseteq># mset (rows (with_parsed_timestamps lib df0))"
      using date_filter_facts(2) [OF nen] rows_normalize_subset [OF assms(2)]
      by (rule subset_mset.order_trans)
    obtain ts where ts: "map_of ?n ''timestamp'' = Some (TimeCol ts)"
      using normalize_timestamp_column [OF assms(2) dated(1)] by blast
    have tcol: "\<exists>ts'. map_of (date_filter s' e' ?n) ''timestamp'' = Some (TimeCol ts')"
      by (rule date_filter_facts(3) [OF nen ts])
    have num: "''timestamp'' \<in> set (select_dtypes_number df0)"
      if "map_of df0 ''timestamp'' = Some (NumCol xs)" for xs
    proof -
      have "(''timestamp'', NumCol xs) \<in> set df0" using that by (rule map_of_SomeD)
      then show ?thesis by (force simp: select_dtypes_number_def)
    qed
    show ?thesis
      unfolding dated(2) analyse_names columns_def
      using cols sub tcol num by (simp add: select_names [OF assms(2) cols])
  qed
qed

lemma normalize_stamped:
  "normalize (demo_library t) stamped_table =
     ([(''timestamp'', TimeCol [Some 100, Some 300]), (''temp'', NumCol [Fin 3, Fin 1])], True)"
proof -
  have m: "map_of stamped_table ''timestamp'' = Some (NumCol [Fin 300, NaN, Fin 100])"
    by (simp add: stamped_table_def)
  note np = normalize_present [OF stamped_facts(1) m, of "demo_library t"]
  have td: "map (to_datetime (demo_library t) (NumCol [Fin 300, NaN, Fin 100])) [0, 2] =
            [Some 300, Some 100]"
    by (simp add: demo_library_def)
  have a: "argsort [Some 300, Some (100::int)] = [1, 0]"
    by (simp add: argsort_def upt3)
  have "fst (normalize (demo_library t) stamped_table) =
        [(''timestamp'', TimeCol [Some 100, Some 300]), (''temp'', NumCol [Fin 3, Fin 1])]"
    unfolding np(2) stamped_facts td a by (simp add: iloc_def)
  then show ?thesis using np(1) by (simp add: prod_eq_iff)
qed

lemma load_stamped: "load (demo_library stamped_table) ascii_upload = Inr stamped_table"
  by (simp add: load_def try_encodings_all demo_library_def ascii_upload_def df_empty_def
      stamped_table_def len_def)

lemma pipeline_stamped:
  "pipeline (demo_library stamped_table) None None ascii_upload =
     Inr (analyse (demo_library stamped_table) [''timestamp'', ''temp'']
            (date_filter 0 0
               [(''timestamp'', TimeCol [Some 100, Some 300]), (''temp'', NumCol [Fin 3, Fin 1])])
            True)"
proof -
  have s: "select_dtypes_number stamped_table = [''timestamp'', ''temp'']"
    by (simp add: select_dtypes_number_def stamped_table_def)
  have d: "date_of 100 = 0" "date_of 300 = 0" by (simp_all add: date_of_def ns_per_day_def)
  show ?thesis
    by (simp add: pipeline_after_load [OF load_stamped] s normalize_stamped timestamps_def
        ts_min_def ts_max_def map_filter_def date_input_def d)
qed

theorem numeric_columns_fixed_at_load_witness:
  "\<exists>res. pipeline (demo_library stamped_table) None None ascii_upload = Inr res \<and>
     res_numeric_cols res = [''timestamp'', ''temp''] \<and>
     columns (res_table res) = [''timestamp'', ''temp''] \<and>
     map fst (res_z_scores res) = [''timestamp'', ''temp''] \<and>
     (\<exists>ts. map_of (res_table res) ''timestamp'' = Some (TimeCol ts))"
proof -
  have s: "select_dtypes_number stamped_table = [''timestamp'', ''temp'']"
    by (simp add: select_dtypes_number_def stamped_table_def)
  have m: "map_of stamped_table ''timestamp'' = Some (NumCol [Fin 300, NaN, Fin 100])"
    by (simp add: stamped_table_def)
  show ?thesis
    using numeric_columns_fixed_at_load [OF load_stamped stamped_facts(1) pipeline_stamped] m
    by (simp add: s stamped_facts(3) pipeline_stamped)
qed

subsection \<open>Correlation\<close>
























subsection \<open>The analysis of a run\<close>




















end
